theory Spec2Isabelle
  imports Main "HOL-Library.Word"
begin

unbundle bit_operations_syntax

section \<open>The test bench \<open>CounterTest.count16\<close> (src/cpp/verilator_tests/counter.cc)\<close>

text \<open>
  The file under verification is one googletest case that drives a Verilator model
  \<open>VCounter\<close> of a counter circuit: it steps a two-phase clock, holds reset for ten clock
  steps and then compares \<open>io_out\<close> with \<open>i % (1 << 3)\<close> after each of sixteen clock steps.

  The test bench is embedded by explicit state passing. The class \<open>VCounter\<close> is generated
  by Verilator from the circuit and is not part of the file: its signal fields are a record
  whose last field holds the model's private registers (a type parameter), and its method
  \<open>eval\<close> is a parameter of every function of the test bench.
\<close>

subsection \<open>Data\<close>

text \<open>
  \<open>VerilatedContext\<close>: only the simulation time is used (\<open>timeInc\<close>, \<open>time\<close>); it is a
  \<open>uint64_t\<close>, zero in a new context.
\<close>

record VerilatedContext =
  ctx_time :: "64 word"

definition timeInc :: "64 word \<Rightarrow> VerilatedContext \<Rightarrow> VerilatedContext" where
  "timeInc add c = c\<lparr>ctx_time := ctx_time c + add\<rparr>"

text \<open>
  \<open>VCounter\<close>: the ports the test touches. Verilator stores a port of up to eight bits in a
  \<open>CData\<close> (\<open>uint8_t\<close>). \<open>internals\<close> stands for everything else the generated class holds.
\<close>

record 's VCounter =
  clock :: "8 word"
  reset :: "8 word"
  io_out :: "8 word"
  internals :: 's

text \<open>
  Modelled from the spec: the trace sink \<open>VerilatedVcdC\<close> (section 6: construct, attach,
  open(path), sample(time), close), which belongs to the Verilator library. A sample keeps
  the time it was dumped at and the three ports of the device at that moment. Opening is
  taken to succeed; a sample is written only while the sink is open.
\<close>

record VerilatedVcdC =
  isOpen :: bool
  filename :: string
  samples :: "(64 word \<times> 8 word \<times> 8 word \<times> 8 word) list"

definition vcd_new :: VerilatedVcdC where
  "vcd_new = \<lparr>isOpen = False, filename = [], samples = []\<rparr>"

definition vcd_open :: "string \<Rightarrow> VerilatedVcdC \<Rightarrow> VerilatedVcdC" where
  "vcd_open f t = t\<lparr>isOpen := True, filename := f\<rparr>"

definition vcd_dump :: "64 word \<Rightarrow> 's VCounter \<Rightarrow> VerilatedVcdC \<Rightarrow> VerilatedVcdC" where
  "vcd_dump tm d t =
     (if isOpen t then t\<lparr>samples := samples t @ [(tm, clock d, reset d, io_out d)]\<rparr> else t)"

definition vcd_close :: "VerilatedVcdC \<Rightarrow> VerilatedVcdC" where
  "vcd_close t = t\<lparr>isOpen := False\<rparr>"

text \<open>
  The state of the running test case: the three objects it owns (\<open>contextp\<close>, \<open>dut\<close>, and
  \<open>tfp\<close>, which exists only under \<open>WAVEON\<close>), and what googletest keeps of it: \<open>checks\<close> lists
  every executed \<open>EXPECT_EQ\<close> as (actual, expected) in program order, \<open>has_failure\<close> is the
  flag that fails the test case, \<open>finalized\<close> records that \<open>dut->final()\<close> was reached.
\<close>

record 's test_state =
  contextp :: VerilatedContext
  dut :: "'s VCounter"
  tfp :: VerilatedVcdC
  checks :: "(int \<times> int) list"
  has_failure :: bool
  finalized :: bool

subsection \<open>Control flow\<close>

text \<open>\<open>for (int i = a; i < n; ++i) body\<close> and \<open>for (int i = a; i <= n; ++i) body\<close>.\<close>

function for_lt :: "int \<Rightarrow> int \<Rightarrow> (int \<Rightarrow> 'a \<Rightarrow> 'a) \<Rightarrow> 'a \<Rightarrow> 'a" where
  "for_lt i n body s = (if i < n then for_lt (i + 1) n body (body i s) else s)"
  by pat_completeness auto
termination
  by (relation "measure (\<lambda>(i, n, body, s). nat (n - i))") auto

function for_le :: "int \<Rightarrow> int \<Rightarrow> (int \<Rightarrow> 'a \<Rightarrow> 'a) \<Rightarrow> 'a \<Rightarrow> 'a" where
  "for_le i n body s = (if i \<le> n then for_le (i + 1) n body (body i s) else s)"
  by pat_completeness auto
termination
  by (relation "measure (\<lambda>(i, n, body, s). nat (n + 1 - i))") auto

declare for_lt.simps [simp del]
declare for_le.simps [simp del]

text \<open>C++ \<open>a % b\<close> on \<open>int\<close>: the remainder of the division that truncates towards zero.\<close>

definition c_rem :: "int \<Rightarrow> int \<Rightarrow> int" where
  "c_rem a b = sgn a * (\<bar>a\<bar> mod \<bar>b\<bar>)"

text \<open>
  \<open>EXPECT_EQ(val1, val2)\<close>: a non-fatal assertion. It records the comparison, raises the
  failure flag on a mismatch and returns to the caller in either case.
\<close>

definition EXPECT_EQ :: "int \<Rightarrow> int \<Rightarrow> 's test_state \<Rightarrow> 's test_state" where
  "EXPECT_EQ val1 val2 st =
     st\<lparr>checks := checks st @ [(val1, val2)],
        has_failure := (has_failure st \<or> val1 \<noteq> val2)\<rparr>"

subsection \<open>The test case\<close>

text \<open>
  The body of the loop in the lambda \<open>clock_step\<close> (lines 30 to 35), for half-cycle \<open>i\<close>:
  \<open>contextp->timeInc(1); dut->clock = i; dut->eval();\<close> and, under \<open>WAVEON\<close>,
  \<open>tfp->dump(contextp->time())\<close>. The device reads the time of its context while it
  evaluates, so \<open>eval\<close> takes the current time; it returns the device and nothing else.
\<close>

definition half_cycle ::
  "(64 word \<Rightarrow> 's VCounter \<Rightarrow> 's VCounter) \<Rightarrow> bool \<Rightarrow> int \<Rightarrow> 's test_state \<Rightarrow> 's test_state" where
  "half_cycle eval WAVEON i st =
     (let st1 = st\<lparr>contextp := timeInc 1 (contextp st)\<rparr>;
          st2 = st1\<lparr>dut := (dut st1)\<lparr>clock := of_int i\<rparr>\<rparr>;
          st3 = st2\<lparr>dut := eval (ctx_time (contextp st2)) (dut st2)\<rparr>
      in if WAVEON
         then st3\<lparr>tfp := vcd_dump (ctx_time (contextp st3)) (dut st3) (tfp st3)\<rparr>
         else st3)"

text \<open>\<open>auto clock_step = [&]() { for (int i = 0; i <= 1; ++i) { ... } }\<close>\<close>

definition clock_step ::
  "(64 word \<Rightarrow> 's VCounter \<Rightarrow> 's VCounter) \<Rightarrow> bool \<Rightarrow> 's test_state \<Rightarrow> 's test_state" where
  "clock_step eval WAVEON st = for_le 0 1 (half_cycle eval WAVEON) st"

text \<open>
  Lines 39 and 40: \<open>dut->reset = 1; for (int i = 0; i < 10; ++i) clock_step();\<close>.
  The bound 10 is the argument \<open>n\<close>, so that reset phases of other lengths can be spoken
  of; \<open>count16\<close> passes 10.
\<close>

definition reset_phase ::
  "(64 word \<Rightarrow> 's VCounter \<Rightarrow> 's VCounter) \<Rightarrow> bool \<Rightarrow> int \<Rightarrow> 's test_state \<Rightarrow> 's test_state" where
  "reset_phase eval WAVEON n st =
     for_lt 0 n (\<lambda>i. clock_step eval WAVEON) (st\<lparr>dut := (dut st)\<lparr>reset := 1\<rparr>\<rparr>)"

text \<open>
  The body of the functional loop (lines 45 to 47):
  \<open>clock_step(); dut->eval(); EXPECT_EQ(int(dut->io_out), i % (1 << 3));\<close>
\<close>

definition test_step ::
  "(64 word \<Rightarrow> 's VCounter \<Rightarrow> 's VCounter) \<Rightarrow> bool \<Rightarrow> int \<Rightarrow> 's test_state \<Rightarrow> 's test_state" where
  "test_step eval WAVEON i st =
     (let st1 = clock_step eval WAVEON st;
          st2 = st1\<lparr>dut := eval (ctx_time (contextp st1)) (dut st1)\<rparr>
      in EXPECT_EQ (uint (io_out (dut st2))) (c_rem i (push_bit 3 1)) st2)"

text \<open>
  Lines 42 to 48: \<open>dut->reset = 0; for (int i = 1; i <= 16; ++i) { ... }\<close>, the bound 16
  being the argument \<open>m\<close>.
\<close>

definition test_phase ::
  "(64 word \<Rightarrow> 's VCounter \<Rightarrow> 's VCounter) \<Rightarrow> bool \<Rightarrow> int \<Rightarrow> 's test_state \<Rightarrow> 's test_state" where
  "test_phase eval WAVEON m st =
     for_le 1 m (test_step eval WAVEON) (st\<lparr>dut := (dut st)\<lparr>reset := 0\<rparr>\<rparr>)"

text \<open>
  Lines 17 to 26: the new context (time 0), the new device \<open>d0\<close> (whatever state the
  generated constructor leaves it in) and, under \<open>WAVEON\<close>, the trace sink, attached to the
  device (\<open>traceEverOn\<close>, \<open>dut->trace(tfp.get(), 99)\<close>) and opened on \<open>wave.vcd\<close>.
\<close>

definition new_test :: "bool \<Rightarrow> 's VCounter \<Rightarrow> 's test_state" where
  "new_test WAVEON d0 =
     (let st = \<lparr>contextp = \<lparr>ctx_time = 0\<rparr>, dut = d0, tfp = vcd_new, checks = [],
                has_failure = False, finalized = False\<rparr>
      in if WAVEON then st\<lparr>tfp := vcd_open ''wave.vcd'' (tfp st)\<rparr> else st)"

text \<open>\<open>TEST_F(CounterTest, count16)\<close>, the whole test case.\<close>

definition count16 ::
  "(64 word \<Rightarrow> 's VCounter \<Rightarrow> 's VCounter) \<Rightarrow> bool \<Rightarrow> 's VCounter \<Rightarrow> 's test_state" where
  "count16 eval WAVEON d0 =
     (let st1 = reset_phase eval WAVEON 10 (new_test WAVEON d0);
          st2 = test_phase eval WAVEON 16 st1;
          st3 = (if WAVEON then st2\<lparr>tfp := vcd_close (tfp st2)\<rparr> else st2)
      in st3\<lparr>finalized := True\<rparr>)"

subsection \<open>The device under test\<close>

text \<open>
  Modelled from the spec: the generated class \<open>VCounter\<close> and its method \<open>eval\<close>, which are
  not in the file. The spec describes the device as a 3-bit wraparound counter with an
  internal counter register that the reset input brings to 0 and that counts one up per
  clock step; its output is the register. Evaluation propagates the circuit for the
  current inputs: the register changes on a rising edge of \<open>clock\<close> (a low level seen by
  the previous evaluation, a high level now) and is unchanged otherwise.
\<close>

record VCounter_regs =
  cnt :: "3 word"
  clock_last :: "8 word"

definition VCounter_eval :: "64 word \<Rightarrow> VCounter_regs VCounter \<Rightarrow> VCounter_regs VCounter" where
  "VCounter_eval tm d =
     (let r = internals d;
          posedge = (clock d \<noteq> 0 \<and> clock_last r = 0);
          c = (if posedge then (if reset d \<noteq> 0 then 0 else cnt r + 1) else cnt r)
      in d\<lparr>io_out := ucast c, internals := \<lparr>cnt = c, clock_last = clock d\<rparr>\<rparr>)"

subsection \<open>The counter contract\<close>

text \<open>
  What one call of \<open>clock_step\<close> at time \<open>tm\<close> does to the device: the two evaluations of
  lines 30 to 32, with \<open>clock = 0\<close> at time \<open>tm + 1\<close> and with \<open>clock = 1\<close> at time \<open>tm + 2\<close>.
\<close>

definition dut_clock_step ::
  "(64 word \<Rightarrow> 's VCounter \<Rightarrow> 's VCounter) \<Rightarrow> 64 word \<Rightarrow> 's VCounter \<Rightarrow> 's VCounter" where
  "dut_clock_step eval tm d = eval (tm + 2) ((eval (tm + 1) (d\<lparr>clock := 0\<rparr>))\<lparr>clock := 1\<rparr>)"

text \<open>
  The assumption under which the test is meant to pass, that the device is a 3-bit
  wraparound counter that resets to 0, as a condition on an arbitrary \<open>eval\<close> and on the
  ports only: evaluation leaves the input ports alone; a clock step with reset asserted
  brings the output to 0 from any state; a clock step with reset de-asserted, started from
  an evaluated device, adds one modulo 8; and evaluating once more keeps the output.
\<close>

definition counter3 :: "(64 word \<Rightarrow> 's VCounter \<Rightarrow> 's VCounter) \<Rightarrow> bool" where
  "counter3 eval \<longleftrightarrow>
     (\<forall>tm d. clock (eval tm d) = clock d \<and> reset (eval tm d) = reset d) \<and>
     (\<forall>tm d. reset d \<noteq> 0 \<longrightarrow> io_out (dut_clock_step eval tm d) = 0) \<and>
     (\<forall>tm tm' d. uint (io_out (dut_clock_step eval tm' ((eval tm d)\<lparr>reset := 0\<rparr>)))
          = (uint (io_out (eval tm d)) + 1) mod 8) \<and>
     (\<forall>tm tm' d. io_out (eval tm' (eval tm d)) = io_out (eval tm d))"

subsection \<open>Instruments\<close>

text \<open>
  A device that does nothing but log each evaluation, with the time and the clock level it
  was called at. Run in the place of \<open>eval\<close>, it shows which evaluations the test bench
  performs.
\<close>

definition probe_eval ::
  "64 word \<Rightarrow> (64 word \<times> 8 word) list VCounter \<Rightarrow> (64 word \<times> 8 word) list VCounter" where
  "probe_eval tm d = d\<lparr>internals := internals d @ [(tm, clock d)]\<rparr>"

text \<open>
  The invariant of the trace under \<open>WAVEON\<close>: it is open and holds one sample for each of
  the times 1 to \<open>k\<close>, the current time.
\<close>

definition traced_upto :: "nat \<Rightarrow> 's test_state \<Rightarrow> bool" where
  "traced_upto k st \<longleftrightarrow>
     isOpen (tfp st) \<and> ctx_time (contextp st) = of_nat k \<and>
     map fst (samples (tfp st)) = map of_nat [1..<Suc k]"

text \<open>A broken device whose output is stuck at 0: every comparison but those with 0 fails.\<close>

definition stuck_eval :: "64 word \<Rightarrow> unit VCounter \<Rightarrow> unit VCounter" where
  "stuck_eval tm d = d\<lparr>io_out := 0\<rparr>"

subsection \<open>The functional phase without its extra evaluation\<close>

text \<open>
  The functional loop as it would read with line 46 (\<open>dut->eval();\<close>) removed: the
  comparison follows the clock step directly. It is not in the source; it is what the
  source is compared with.
\<close>

definition test_step_no_eval ::
  "(64 word \<Rightarrow> 's VCounter \<Rightarrow> 's VCounter) \<Rightarrow> bool \<Rightarrow> int \<Rightarrow> 's test_state \<Rightarrow> 's test_state" where
  "test_step_no_eval eval WAVEON i st =
     (let st1 = clock_step eval WAVEON st
      in EXPECT_EQ (uint (io_out (dut st1))) (c_rem i (push_bit 3 1)) st1)"

definition test_phase_no_eval ::
  "(64 word \<Rightarrow> 's VCounter \<Rightarrow> 's VCounter) \<Rightarrow> bool \<Rightarrow> int \<Rightarrow> 's test_state \<Rightarrow> 's test_state" where
  "test_phase_no_eval eval WAVEON m st =
     for_le 1 m (test_step_no_eval eval WAVEON) (st\<lparr>dut := (dut st)\<lparr>reset := 0\<rparr>\<rparr>)"

section \<open>Loops\<close>

lemma clock_step_unfold:
  "clock_step eval WAVEON st = half_cycle eval WAVEON 1 (half_cycle eval WAVEON 0 st)"
  by (simp add: clock_step_def for_le.simps)

lemma for_le_done: "n < i \<Longrightarrow> for_le i n body s = s"
  by (simp add: for_le.simps)

lemma for_le_step: "i \<le> n \<Longrightarrow> for_le i n body s = for_le (i + 1) n body (body i s)"
  by (subst for_le.simps) simp

lemma for_le_last: "i \<le> n \<Longrightarrow> for_le i n body s = body n (for_le i (n - 1) body s)"
proof (induction i n body s rule: for_le.induct)
  case (1 i n body s)
  show ?case
  proof (cases "i = n")
    case True
    then show ?thesis by (simp add: for_le_step for_le_done)
  next
    case False
    with "1.prems" have lt: "i + 1 \<le> n" "i \<le> n - 1" by simp_all
    from "1.IH" [OF "1.prems" lt(1)] lt "1.prems" show ?thesis
      by (simp add: for_le_step)
  qed
qed

lemma for_lt_for_le: "for_lt i n body s = for_le i (n - 1) body s"
proof (induction i n body s rule: for_lt.induct)
  case (1 i n body s)
  show ?case
  proof (cases "i < n")
    case True
    with "1.IH" show ?thesis
      by (subst for_lt.simps) (simp add: for_le_step)
  next
    case False
    then show ?thesis
      by (subst for_lt.simps) (simp add: for_le_done)
  qed
qed

lemma for_le_Suc:
  "for_le 1 (int (Suc m)) body s = body (int m + 1) (for_le 1 (int m) body s)"
  using for_le_last [of 1 "int (Suc m)" body s] by (simp add: add.commute)

lemma for_lt_0: "n \<le> 0 \<Longrightarrow> for_lt 0 n body s = s"
  by (simp add: for_lt_for_le for_le_done)

lemma for_lt_Suc:
  "for_lt 0 (int (Suc m)) body s = body (int m) (for_lt 0 (int m) body s)"
  using for_le_last [of 0 "int m" body s] by (simp add: for_lt_for_le)

lemma for_lt_const_funpow: "for_lt 0 (int m) (\<lambda>i. f) s = (f ^^ m) s"
  by (induction m) (simp_all add: for_lt_0 for_lt_Suc del: of_nat_Suc)

section \<open>What one half-cycle and one clock step change\<close>

lemma half_cycle_contextp [simp]:
  "contextp (half_cycle eval w i st) = timeInc 1 (contextp st)"
  by (simp add: half_cycle_def Let_def)

lemma half_cycle_dut [simp]:
  "dut (half_cycle eval w i st) =
     eval (ctx_time (contextp st) + 1) ((dut st)\<lparr>clock := of_int i\<rparr>)"
  by (simp add: half_cycle_def Let_def timeInc_def)

lemma half_cycle_checks [simp]:
  "checks (half_cycle eval w i st) = checks st"
  "has_failure (half_cycle eval w i st) = has_failure st"
  "finalized (half_cycle eval w i st) = finalized st"
  by (simp_all add: half_cycle_def Let_def)

lemma half_cycle_tfp [simp]:
  "tfp (half_cycle eval w i st) =
     (if w then vcd_dump (ctx_time (contextp st) + 1)
                  (eval (ctx_time (contextp st) + 1) ((dut st)\<lparr>clock := of_int i\<rparr>)) (tfp st)
      else tfp st)"
  by (simp add: half_cycle_def Let_def timeInc_def)

lemma clock_step_time [simp]:
  "ctx_time (contextp (clock_step eval w st)) = ctx_time (contextp st) + 2"
  by (simp add: clock_step_unfold timeInc_def)

lemma clock_step_dut:
  "dut (clock_step eval w st) = dut_clock_step eval (ctx_time (contextp st)) (dut st)"
  by (simp add: clock_step_unfold dut_clock_step_def timeInc_def add.commute)

lemma clock_step_checks [simp]:
  "checks (clock_step eval w st) = checks st"
  "has_failure (clock_step eval w st) = has_failure st"
  "finalized (clock_step eval w st) = finalized st"
  by (simp_all add: clock_step_unfold)

lemma for_le_commute:
  assumes "\<And>i s. h (f i s) = g i (h s)"
  shows "h (for_le i n f s) = for_le i n g (h s)"
  using assms
proof (induction i n f s rule: for_le.induct)
  case (1 i n f s)
  show ?case
  proof (cases "i \<le> n")
    case True
    have "h (for_le i n f s) = h (for_le (i + 1) n f (f i s))"
      using True by (simp add: for_le_step)
    also have "\<dots> = for_le (i + 1) n g (h (f i s))"
      using True "1.prems" by (rule "1.IH")
    also have "\<dots> = for_le (i + 1) n g (g i (h s))"
      by (simp only: "1.prems")
    also have "\<dots> = for_le i n g (h s)"
      using True by (simp add: for_le_step)
    finally show ?thesis .
  next
    case False
    then show ?thesis by (simp add: for_le_done)
  qed
qed

lemma for_lt_commute:
  assumes "\<And>i s. h (f i s) = g i (h s)"
  shows "h (for_lt i n f s) = for_lt i n g (h s)"
  unfolding for_lt_for_le by (rule for_le_commute) (rule assms)

section \<open>Time\<close>

lemma reset_phase_time_nat:
  "ctx_time (contextp (reset_phase eval w (int n) st)) = ctx_time (contextp st) + 2 * of_nat n"
  by (induction n) (simp_all add: reset_phase_def for_lt_0 for_lt_Suc del: of_nat_Suc, simp)

lemma test_step_contextp [simp]:
  "contextp (test_step eval w i st) = contextp (clock_step eval w st)"
  by (simp add: test_step_def Let_def EXPECT_EQ_def)

lemma test_phase_Suc:
  "test_phase eval w (int (Suc m)) st = test_step eval w (int m + 1) (test_phase eval w (int m) st)"
  unfolding test_phase_def by (rule for_le_Suc)

lemma test_phase_0: "m \<le> 0 \<Longrightarrow> test_phase eval w m st = st\<lparr>dut := (dut st)\<lparr>reset := 0\<rparr>\<rparr>"
  by (simp add: test_phase_def for_le_done)

lemma test_phase_time_nat:
  "ctx_time (contextp (test_phase eval w (int m) st)) = ctx_time (contextp st) + 2 * of_nat m"
proof (induction m)
  case 0
  show ?case by (simp add: test_phase_0)
next
  case (Suc m)
  then show ?case unfolding test_phase_Suc by simp
qed

lemma new_test_time [simp]: "ctx_time (contextp (new_test w d0)) = 0"
  by (simp add: new_test_def Let_def)

lemma count16_contextp:
  "contextp (count16 eval w d0) =
     contextp (test_phase eval w 16 (reset_phase eval w 10 (new_test w d0)))"
  by (simp add: count16_def Let_def)

section \<open>The clock step\<close>

text \<open>
  C2. A call of \<open>clock_step\<close> evaluates the device exactly twice, first with \<open>clock = 0\<close>
  and then with \<open>clock = 1\<close>, and advances the time by one unit before each evaluation, by
  two in all. The probe device logs exactly these two evaluations.
\<close>

theorem clock_step_two_half_cycles:
  "dut (clock_step eval WAVEON st) =
     eval (ctx_time (contextp st) + 2)
       ((eval (ctx_time (contextp st) + 1) ((dut st)\<lparr>clock := 0\<rparr>))\<lparr>clock := 1\<rparr>)
   \<and> ctx_time (contextp (clock_step eval WAVEON st)) = ctx_time (contextp st) + 2
   \<and> internals (dut (clock_step probe_eval WAVEON pst)) =
       internals (dut pst) @
         [(ctx_time (contextp pst) + 1, 0), (ctx_time (contextp pst) + 2, 1)]"
  by (simp add: clock_step_dut dut_clock_step_def probe_eval_def)

section \<open>Tracing does not reach the rest of the state\<close>

lemma tfp_dut_swap: "st\<lparr>dut := d, tfp := x\<rparr> = st\<lparr>tfp := x, dut := d\<rparr>"
  by (cases st) simp

lemma tfp_finalized_swap: "st\<lparr>finalized := b, tfp := x\<rparr> = st\<lparr>tfp := x, finalized := b\<rparr>"
  by (cases st) simp

lemma half_cycle_erase:
  "(half_cycle eval w i st)\<lparr>tfp := x\<rparr> = half_cycle eval False i (st\<lparr>tfp := x\<rparr>)"
  by (simp add: half_cycle_def Let_def)

lemma clock_step_erase:
  "(clock_step eval w st)\<lparr>tfp := x\<rparr> = clock_step eval False (st\<lparr>tfp := x\<rparr>)"
  unfolding clock_step_def
  by (rule for_le_commute [where h = "\<lambda>s. s\<lparr>tfp := x\<rparr>"]) (rule half_cycle_erase)

lemma half_cycle_more [simp]:
  "test_state.more (half_cycle eval w i st) = test_state.more st"
  by (simp add: half_cycle_def Let_def)

lemma clock_step_more [simp]:
  "test_state.more (clock_step eval w st) = test_state.more st"
  by (simp add: clock_step_unfold)

lemma clock_step_contextp:
  "contextp (clock_step eval w st) = timeInc 1 (timeInc 1 (contextp st))"
  by (simp add: clock_step_unfold)

lemma clock_step_tfp_False [simp]:
  "tfp (clock_step eval False st) = tfp st"
  by (simp add: clock_step_unfold)

lemma test_step_erase:
  "(test_step eval w i st)\<lparr>tfp := x\<rparr> = test_step eval False i (st\<lparr>tfp := x\<rparr>)"
  by (rule test_state.equality)
    (simp_all add: test_step_def Let_def EXPECT_EQ_def clock_step_dut clock_step_contextp)

lemma reset_phase_erase:
  "(reset_phase eval w n st)\<lparr>tfp := x\<rparr> = reset_phase eval False n (st\<lparr>tfp := x\<rparr>)"
proof -
  have "(for_lt 0 n (\<lambda>i. clock_step eval w) s)\<lparr>tfp := x\<rparr>
      = for_lt 0 n (\<lambda>i. clock_step eval False) (s\<lparr>tfp := x\<rparr>)" for s
    by (rule for_lt_commute [where h = "\<lambda>s. s\<lparr>tfp := x\<rparr>"]) (rule clock_step_erase)
  then show ?thesis by (simp add: reset_phase_def tfp_dut_swap)
qed

lemma test_phase_erase:
  "(test_phase eval w m st)\<lparr>tfp := x\<rparr> = test_phase eval False m (st\<lparr>tfp := x\<rparr>)"
proof -
  have "(for_le 1 m (test_step eval w) s)\<lparr>tfp := x\<rparr>
      = for_le 1 m (test_step eval False) (s\<lparr>tfp := x\<rparr>)" for s
    by (rule for_le_commute [where h = "\<lambda>s. s\<lparr>tfp := x\<rparr>"]) (rule test_step_erase)
  then show ?thesis by (simp add: test_phase_def tfp_dut_swap)
qed

lemma new_test_erase: "(new_test w d0)\<lparr>tfp := vcd_new\<rparr> = new_test False d0"
  by (simp add: new_test_def Let_def)

lemma count16_erase: "(count16 eval w d0)\<lparr>tfp := vcd_new\<rparr> = count16 eval False d0"
proof -
  have "(test_phase eval w 16 (reset_phase eval w 10 (new_test w d0)))\<lparr>tfp := vcd_new\<rparr>
      = test_phase eval False 16 (reset_phase eval False 10 (new_test False d0))"
    by (simp add: test_phase_erase reset_phase_erase new_test_erase)
  then show ?thesis
    by (cases w) (simp_all add: count16_def Let_def tfp_finalized_swap)
qed

section \<open>The checks of the functional phase\<close>

lemma for_le_split:
  "i \<le> j + 1 \<Longrightarrow> j \<le> n \<Longrightarrow> for_le i n body s = for_le (j + 1) n body (for_le i j body s)"
proof (induction i j body s rule: for_le.induct)
  case (1 i j body s)
  show ?case
  proof (cases "i \<le> j")
    case True
    with "1.prems" have "i \<le> n" by simp
    with True "1.IH" [OF True] "1.prems" show ?thesis
      by (simp add: for_le_step)
  next
    case False
    with "1.prems" have "i = j + 1" by simp
    then show ?thesis by (simp add: for_le_done)
  qed
qed

lemma c_rem_8 [simp]: "c_rem i (push_bit 3 1) = c_rem i 8"
  by simp

lemma c_rem_nonneg: "0 \<le> i \<Longrightarrow> c_rem i 8 = i mod 8"
  by (cases "i = 0") (simp_all add: c_rem_def)

lemma test_step_dut:
  "dut (test_step eval w i st) =
     eval (ctx_time (contextp st) + 2) (dut_clock_step eval (ctx_time (contextp st)) (dut st))"
  by (simp add: test_step_def Let_def EXPECT_EQ_def clock_step_dut)

lemma test_step_checks:
  "checks (test_step eval w i st) =
     checks st @ [(uint (io_out (dut (test_step eval w i st))), c_rem i 8)]"
  by (simp add: test_step_def Let_def EXPECT_EQ_def)

lemma test_step_has_failure:
  "has_failure (test_step eval w i st) \<longleftrightarrow>
     has_failure st \<or> uint (io_out (dut (test_step eval w i st))) \<noteq> c_rem i 8"
  by (simp add: test_step_def Let_def EXPECT_EQ_def)

lemma test_step_finalized [simp]:
  "finalized (test_step eval w i st) = finalized st"
  by (simp add: test_step_def Let_def EXPECT_EQ_def)

lemma test_step_tfp [simp]:
  "tfp (test_step eval w i st) = tfp (clock_step eval w st)"
  by (simp add: test_step_def Let_def EXPECT_EQ_def)

lemma reset_phase_Suc:
  "reset_phase eval w (int (Suc n)) st = clock_step eval w (reset_phase eval w (int n) st)"
  unfolding reset_phase_def by (rule for_lt_Suc)

lemma reset_phase_0:
  "n \<le> 0 \<Longrightarrow> reset_phase eval w n st = st\<lparr>dut := (dut st)\<lparr>reset := 1\<rparr>\<rparr>"
  by (simp add: reset_phase_def for_lt_0)

lemma reset_phase_checks_nat:
  "checks (reset_phase eval w (int n) st) = checks st \<and>
   has_failure (reset_phase eval w (int n) st) = has_failure st \<and>
   finalized (reset_phase eval w (int n) st) = finalized st"
proof (induction n)
  case 0
  show ?case by (simp add: reset_phase_0)
next
  case (Suc n)
  then show ?case unfolding reset_phase_Suc by simp
qed

lemma upto_int_Suc: "[1..int (Suc m)] = [1..int m] @ [int m + 1]"
  using upto_rec2 [of 1 "int (Suc m)"] by (simp add: add.commute)

lemma test_phase_checks_nat:
  "checks (test_phase eval w (int m) st) =
     checks st @
     map (\<lambda>k. (uint (io_out (dut (test_phase eval w k st))), c_rem k 8)) [1..int m]"
proof (induction m)
  case 0
  show ?case by (simp add: test_phase_0)
next
  case (Suc m)
  have "checks (test_phase eval w (int (Suc m)) st) =
          checks (test_phase eval w (int m) st) @
          [(uint (io_out (dut (test_phase eval w (int (Suc m)) st))), c_rem (int m + 1) 8)]"
    unfolding test_phase_Suc by (rule test_step_checks)
  with Suc show ?case
    unfolding upto_int_Suc by (simp add: add.commute)
qed

lemma test_phase_has_failure_nat:
  assumes "has_failure st \<longleftrightarrow> (\<exists>(a, e) \<in> set (checks st). a \<noteq> e)"
  shows "has_failure (test_phase eval w (int m) st) \<longleftrightarrow>
           (\<exists>(a, e) \<in> set (checks (test_phase eval w (int m) st)). a \<noteq> e)"
proof (induction m)
  case 0
  from assms show ?case by (simp add: test_phase_0)
next
  case (Suc m)
  then show ?case
    unfolding test_phase_Suc
    by (auto simp add: test_step_has_failure test_step_checks)
qed

lemma new_test_checks [simp]:
  "checks (new_test w d0) = []" "has_failure (new_test w d0) = False"
  "finalized (new_test w d0) = False" "dut (new_test w d0) = d0"
  by (simp_all add: new_test_def Let_def)

lemma count16_checks_eq:
  "checks (count16 eval w d0) =
     checks (test_phase eval w 16 (reset_phase eval w 10 (new_test w d0)))"
  "has_failure (count16 eval w d0) =
     has_failure (test_phase eval w 16 (reset_phase eval w 10 (new_test w d0)))"
  "dut (count16 eval w d0) =
     dut (test_phase eval w 16 (reset_phase eval w 10 (new_test w d0)))"
  by (simp_all add: count16_def Let_def)

lemma count16_finalized: "finalized (count16 eval w d0)"
  by (simp add: count16_def Let_def)

lemma count16_checks:
  "checks (count16 eval w d0) =
     map (\<lambda>i. (uint (io_out (dut (test_phase eval w i (reset_phase eval w 10 (new_test w d0))))),
               c_rem i 8)) [1..16]"
  using test_phase_checks_nat [of eval w 16 "reset_phase eval w 10 (new_test w d0)"]
    reset_phase_checks_nat [of eval w 10 "new_test w d0"]
  by (simp add: count16_checks_eq)

lemma count16_has_failure:
  "has_failure (count16 eval w d0) \<longleftrightarrow> (\<exists>(a, e) \<in> set (checks (count16 eval w d0)). a \<noteq> e)"
proof -
  let ?st = "reset_phase eval w 10 (new_test w d0)"
  have "has_failure ?st \<longleftrightarrow> (\<exists>(a, e) \<in> set (checks ?st). a \<noteq> e)"
    using reset_phase_checks_nat [of eval w 10 "new_test w d0"] by simp
  from test_phase_has_failure_nat [OF this, of eval w 16] show ?thesis
    by (simp add: count16_checks_eq)
qed

section \<open>Assertions do not abort\<close>

text \<open>
  C6. Whatever the device puts out, the functional loop executes all sixteen comparisons
  in order: the \<open>i\<close>-th compares \<open>io_out\<close> after step \<open>i\<close> with \<open>i % 8\<close>. A mismatch only
  raises the failure flag (the test case has failed exactly when some comparison
  mismatched), and \<open>dut->final()\<close> is reached in every case.
\<close>

theorem count16_runs_every_check:
  "map snd (checks (count16 eval WAVEON d0)) = map (\<lambda>i. c_rem i 8) [1..16]
   \<and> map fst (checks (count16 eval WAVEON d0)) =
       map (\<lambda>i. uint (io_out (dut (test_phase eval WAVEON i
                   (reset_phase eval WAVEON 10 (new_test WAVEON d0)))))) [1..16]
   \<and> (has_failure (count16 eval WAVEON d0) \<longleftrightarrow>
        (\<exists>(a, e) \<in> set (checks (count16 eval WAVEON d0)). a \<noteq> e))
   \<and> finalized (count16 eval WAVEON d0)"
proof -
  have "map snd (checks (count16 eval WAVEON d0)) = map (\<lambda>i. c_rem i 8) [1..16]"
    unfolding count16_checks by (simp add: comp_def)
  moreover have "map fst (checks (count16 eval WAVEON d0)) =
       map (\<lambda>i. uint (io_out (dut (test_phase eval WAVEON i
                   (reset_phase eval WAVEON 10 (new_test WAVEON d0)))))) [1..16]"
    unfolding count16_checks by (simp add: comp_def)
  ultimately show ?thesis
    using count16_has_failure [of eval WAVEON d0] count16_finalized [of eval WAVEON d0]
    by blast
qed

lemma upto_1_16: "[1..16] = [1, 2, 3, 4, 5, 6, 7, 8, 9, 10, 11, 12, 13, 14, 15, 16 :: int]"
  by (simp add: upto_rec1)

lemma stuck_eval_test_phase:
  assumes "1 \<le> i"
  shows "io_out (dut (test_phase stuck_eval w i st)) = 0"
proof -
  from assms have "i = int (Suc (nat (i - 1)))" by simp
  then obtain m where "i = int (Suc m)" ..
  then show ?thesis
    by (simp add: test_phase_Suc test_step_dut stuck_eval_def del: of_nat_Suc)
qed

theorem count16_stuck_device_witness:
  "has_failure (count16 stuck_eval False \<lparr>clock = 0, reset = 0, io_out = 0, internals = ()\<rparr>)
   \<and> finalized (count16 stuck_eval False \<lparr>clock = 0, reset = 0, io_out = 0, internals = ()\<rparr>)
   \<and> checks (count16 stuck_eval False \<lparr>clock = 0, reset = 0, io_out = 0, internals = ()\<rparr>) =
       [(0, 1), (0, 2), (0, 3), (0, 4), (0, 5), (0, 6), (0, 7), (0, 0),
        (0, 1), (0, 2), (0, 3), (0, 4), (0, 5), (0, 6), (0, 7), (0, 0)]"
proof -
  let ?d = "\<lparr>clock = 0, reset = 0, io_out = 0, internals = ()\<rparr> :: unit VCounter"
  let ?cs = "checks (count16 stuck_eval False ?d)"
  note run = count16_runs_every_check [of stuck_eval False ?d]
  have snd: "map snd ?cs = [1, 2, 3, 4, 5, 6, 7, 0, 1, 2, 3, 4, 5, 6, 7, 0]"
    using run by (simp add: c_rem_def upto_1_16)
  have fst: "map fst ?cs = [0, 0, 0, 0, 0, 0, 0, 0, 0, 0, 0, 0, 0, 0, 0, 0]"
    using run by (simp add: stuck_eval_test_phase upto_1_16)
  have "?cs = zip (map fst ?cs) (map snd ?cs)"
    by (simp add: zip_map_fst_snd)
  then have cs: "?cs = [(0, 1), (0, 2), (0, 3), (0, 4), (0, 5), (0, 6), (0, 7), (0, 0),
        (0, 1), (0, 2), (0, 3), (0, 4), (0, 5), (0, 6), (0, 7), (0, 0)]"
    unfolding fst snd by simp
  moreover have "has_failure (count16 stuck_eval False ?d)"
    using run unfolding cs by simp
  moreover have "finalized (count16 stuck_eval False ?d)"
    using run by simp
  ultimately show ?thesis by simp
qed

section \<open>The samples of the trace\<close>

lemma upt_Suc_Suc: "[1..<Suc (k + 2)] = [1..<Suc k] @ [Suc k, Suc (Suc k)]"
  by simp

lemma clock_step_traced:
  assumes "traced_upto k st"
  shows "traced_upto (k + 2) (clock_step eval True st)"
proof -
  from assms have op: "isOpen (tfp st)" and tm: "ctx_time (contextp st) = of_nat k"
    and sm: "map fst (samples (tfp st)) = map of_nat [1..<Suc k]"
    by (simp_all add: traced_upto_def)
  have "isOpen (tfp (clock_step eval True st))"
    using op by (simp add: clock_step_unfold vcd_dump_def)
  moreover have "ctx_time (contextp (clock_step eval True st)) = of_nat (k + 2)"
    using tm by simp
  moreover have "map fst (samples (tfp (clock_step eval True st))) =
      map fst (samples (tfp st)) @ [of_nat (Suc k), of_nat (Suc (Suc k))]"
    using op tm by (simp add: clock_step_unfold vcd_dump_def timeInc_def add.commute)
  ultimately show ?thesis
    unfolding traced_upto_def upt_Suc_Suc sm by simp
qed

lemma test_step_traced:
  "traced_upto k st \<Longrightarrow> traced_upto (k + 2) (test_step eval True i st)"
  using clock_step_traced [of k st eval] by (simp add: traced_upto_def)

lemma traced_upto_dut [simp]: "traced_upto k (st\<lparr>dut := d\<rparr>) = traced_upto k st"
  by (simp add: traced_upto_def)

lemma reset_phase_traced:
  "traced_upto k st \<Longrightarrow> traced_upto (k + 2 * n) (reset_phase eval True (int n) st)"
proof (induction n)
  case 0
  then show ?case by (simp add: reset_phase_0)
next
  case (Suc n)
  from clock_step_traced [OF Suc.IH [OF Suc.prems]] show ?case
    unfolding reset_phase_Suc by (simp add: add.commute add.left_commute)
qed

lemma test_phase_traced:
  "traced_upto k st \<Longrightarrow> traced_upto (k + 2 * m) (test_phase eval True (int m) st)"
proof (induction m)
  case 0
  then show ?case by (simp add: test_phase_0)
next
  case (Suc m)
  from test_step_traced [OF Suc.IH [OF Suc.prems]] show ?case
    unfolding test_phase_Suc by (simp add: add.commute add.left_commute)
qed

lemma new_test_traced: "traced_upto 0 (new_test True d0)"
  by (simp add: traced_upto_def new_test_def Let_def vcd_open_def vcd_new_def)

lemma run_traced:
  "traced_upto 52 (test_phase eval True 16 (reset_phase eval True 10 (new_test True d0)))"
proof -
  have "traced_upto (0 + 2 * 10) (reset_phase eval True (int 10) (new_test True d0))"
    by (rule reset_phase_traced) (rule new_test_traced)
  then have "traced_upto (0 + 2 * 10 + 2 * 16)
      (test_phase eval True (int 16) (reset_phase eval True (int 10) (new_test True d0)))"
    by (rule test_phase_traced)
  then show ?thesis by simp
qed

lemma count16_tfp:
  "tfp (count16 eval True d0) =
     vcd_close (tfp (test_phase eval True 16 (reset_phase eval True 10 (new_test True d0))))"
  by (simp add: count16_def Let_def)

lemma count16_sample_times:
  "map fst (samples (tfp (count16 eval True d0))) = map of_nat [1..<53]"
  using run_traced [of eval d0] by (simp add: count16_tfp traced_upto_def vcd_close_def)

section \<open>Tracing\<close>

text \<open>
  C8. Compiled with \<open>WAVEON\<close>, the test case opens the trace before the reset phase, dumps
  one sample per half-cycle (at the times 1 to 52) and closes the trace at the end; apart
  from the trace sink it ends in the same state as without \<open>WAVEON\<close>: the same comparisons
  with the same values, the same verdict, the same device and the same time.
\<close>

theorem count16_tracing_is_transparent:
  "(count16 eval True d0)\<lparr>tfp := vcd_new\<rparr> = count16 eval False d0
   \<and> checks (count16 eval True d0) = checks (count16 eval False d0)
   \<and> has_failure (count16 eval True d0) = has_failure (count16 eval False d0)
   \<and> dut (count16 eval True d0) = dut (count16 eval False d0)
   \<and> contextp (count16 eval True d0) = contextp (count16 eval False d0)
   \<and> isOpen (tfp (new_test True d0))
   \<and> map fst (samples (tfp (count16 eval True d0))) = map of_nat [1..<53]
   \<and> \<not> isOpen (tfp (count16 eval True d0))"
proof -
  have e: "(count16 eval True d0)\<lparr>tfp := vcd_new\<rparr> = count16 eval False d0"
    by (rule count16_erase)
  have "checks ((count16 eval True d0)\<lparr>tfp := vcd_new\<rparr>) = checks (count16 eval True d0)"
    "has_failure ((count16 eval True d0)\<lparr>tfp := vcd_new\<rparr>) = has_failure (count16 eval True d0)"
    "dut ((count16 eval True d0)\<lparr>tfp := vcd_new\<rparr>) = dut (count16 eval True d0)"
    "contextp ((count16 eval True d0)\<lparr>tfp := vcd_new\<rparr>) = contextp (count16 eval True d0)"
    by simp_all
  then have "checks (count16 eval True d0) = checks (count16 eval False d0)"
    "has_failure (count16 eval True d0) = has_failure (count16 eval False d0)"
    "dut (count16 eval True d0) = dut (count16 eval False d0)"
    "contextp (count16 eval True d0) = contextp (count16 eval False d0)"
    unfolding e by simp_all
  moreover have "isOpen (tfp (new_test True d0))"
    by (simp add: new_test_def Let_def vcd_open_def)
  moreover have "\<not> isOpen (tfp (count16 eval True d0))"
    by (simp add: count16_tfp vcd_close_def)
  ultimately show ?thesis
    using e count16_sample_times [of eval d0] by simp
qed

section \<open>Simulation time\<close>

text \<open>
  C9. The time of the context starts at 0 and only grows during the run: every clock step
  adds 2, so it is 20 after the reset phase, \<open>20 + 2 * i\<close> after step \<open>i\<close> of the functional
  phase (a state the run with bound 16 passes through) and 52 at the end; the extra
  evaluation of a functional step leaves the time alone. Under \<open>WAVEON\<close> the half-cycles
  are dumped at the times 1, 2, ..., 52.
\<close>

theorem count16_time:
  assumes "i \<le> 16"
  shows "unat (ctx_time (contextp (reset_phase eval WAVEON 10 (new_test WAVEON d0)))) = 20
   \<and> unat (ctx_time (contextp (test_phase eval WAVEON (int i)
              (reset_phase eval WAVEON 10 (new_test WAVEON d0))))) = 20 + 2 * i
   \<and> test_phase eval WAVEON 16 st =
       for_le (int i + 1) 16 (test_step eval WAVEON) (test_phase eval WAVEON (int i) st)
   \<and> unat (ctx_time (contextp (count16 eval WAVEON d0))) = 52
   \<and> ctx_time (contextp (clock_step eval WAVEON st)) = ctx_time (contextp st) + 2
   \<and> contextp (test_step eval WAVEON j st) = contextp (clock_step eval WAVEON st)
   \<and> map (unat \<circ> fst) (samples (tfp (count16 eval True d0))) = [1..<53]"
proof -
  let ?r = "reset_phase eval WAVEON 10 (new_test WAVEON d0)"
  have r: "ctx_time (contextp ?r) = 20"
    using reset_phase_time_nat [of eval WAVEON 10 "new_test WAVEON d0"] by simp
  have "ctx_time (contextp (test_phase eval WAVEON (int i) ?r)) = of_nat (20 + 2 * i)"
    unfolding test_phase_time_nat r by simp
  from this [symmetric]
  have t: "unat (ctx_time (contextp (test_phase eval WAVEON (int i) ?r))) = 20 + 2 * i"
    by (rule of_nat_inverse) (use assms in simp)
  have "ctx_time (contextp (test_phase eval WAVEON (int 16) ?r)) = 52"
    unfolding test_phase_time_nat r by simp
  then have c: "unat (ctx_time (contextp (count16 eval WAVEON d0))) = 52"
    by (simp add: count16_contextp)
  have s: "test_phase eval WAVEON 16 st =
       for_le (int i + 1) 16 (test_step eval WAVEON) (test_phase eval WAVEON (int i) st)"
    unfolding test_phase_def using assms by (intro for_le_split) simp_all
  have "map (unat \<circ> fst) (samples (tfp (count16 eval True d0))) =
          map unat (map fst (samples (tfp (count16 eval True d0))))"
    by simp
  also have "\<dots> = map unat (map of_nat [1..<53] :: 64 word list)"
    by (simp only: count16_sample_times)
  also have "\<dots> = map (\<lambda>k. k) [1..<53]"
    unfolding map_map by (rule map_cong) (simp_all add: unat_of_nat)
  finally have m: "map (unat \<circ> fst) (samples (tfp (count16 eval True d0))) = [1..<53]"
    by simp
  from r t c s m show ?thesis by simp
qed

theorem count16_time_witness:
  "(16::nat) \<le> 16
   \<and> unat (ctx_time (contextp (test_phase stuck_eval False (int 16)
              (reset_phase stuck_eval False 10
                 (new_test False \<lparr>clock = 0, reset = 0, io_out = 0, internals = ()\<rparr>))))) = 52
   \<and> unat (ctx_time (contextp (count16 stuck_eval False
              \<lparr>clock = 0, reset = 0, io_out = 0, internals = ()\<rparr>))) = 52"
  using count16_time [of 16 stuck_eval False "\<lparr>clock = 0, reset = 0, io_out = 0, internals = ()\<rparr>"]
  by simp

section \<open>The modelled counter\<close>

lemma VCounter_eval_ports [simp]:
  "clock (VCounter_eval tm d) = clock d"
  "reset (VCounter_eval tm d) = reset d"
  "clock_last (internals (VCounter_eval tm d)) = clock d"
  "io_out (VCounter_eval tm d) = ucast (cnt (internals (VCounter_eval tm d)))"
  by (simp_all add: VCounter_eval_def Let_def)

lemma VCounter_clock_step:
  "dut_clock_step VCounter_eval tm d =
     d\<lparr>clock := 1,
       io_out := ucast (if reset d \<noteq> 0 then 0 else cnt (internals d) + 1),
       internals := \<lparr>cnt = (if reset d \<noteq> 0 then 0 else cnt (internals d) + 1),
                     clock_last = 1\<rparr>\<rparr>"
  by (simp add: dut_clock_step_def VCounter_eval_def Let_def)

lemma VCounter_eval_again:
  "VCounter_eval tm' (VCounter_eval tm d) = VCounter_eval tm d"
  by (simp add: VCounter_eval_def Let_def)

lemma uint_ucast_3_8: "uint (ucast (c :: 3 word) :: 8 word) = uint c"
  by (simp add: uint_up_ucast is_up)

lemma uint_succ_3: "uint (c + 1 :: 3 word) = (uint c + 1) mod 8"
  by (simp add: uint_word_ariths)

lemma VCounter_eval_counter3: "counter3 VCounter_eval"
proof -
  have "uint (io_out (dut_clock_step VCounter_eval tm' ((VCounter_eval tm d)\<lparr>reset := 0\<rparr>)))
      = (uint (io_out (VCounter_eval tm d)) + 1) mod 8" for tm tm' d
    by (simp add: VCounter_clock_step uint_ucast_3_8 uint_succ_3)
  moreover have "reset d \<noteq> 0 \<longrightarrow> io_out (dut_clock_step VCounter_eval tm d) = 0" for tm d
    by (simp add: VCounter_clock_step)
  moreover have "io_out (VCounter_eval tm' (VCounter_eval tm d)) = io_out (VCounter_eval tm d)"
    for tm tm' d
    by (simp only: VCounter_eval_again)
  ultimately show ?thesis
    unfolding counter3_def by simp
qed

section \<open>The test bench on a device that keeps the counter contract\<close>

lemma counter3_ports:
  assumes "counter3 eval"
  shows "clock (eval tm d) = clock d" "reset (eval tm d) = reset d"
  using assms by (simp_all add: counter3_def)

lemma counter3_reset:
  assumes "counter3 eval" "reset d \<noteq> 0"
  shows "io_out (dut_clock_step eval tm d) = 0"
  using assms by (simp add: counter3_def)

lemma counter3_count:
  assumes "counter3 eval"
  shows "uint (io_out (dut_clock_step eval tm' ((eval tm d)\<lparr>reset := 0\<rparr>)))
           = (uint (io_out (eval tm d)) + 1) mod 8"
  using assms by (simp add: counter3_def)

lemma counter3_again:
  assumes "counter3 eval"
  shows "io_out (eval tm' (eval tm d)) = io_out (eval tm d)"
  using assms by (simp add: counter3_def)

lemma dut_clock_step_reset:
  assumes "counter3 eval"
  shows "reset (dut_clock_step eval tm d) = reset d"
  by (simp add: dut_clock_step_def counter3_ports [OF assms])

lemma reset_phase_reset:
  assumes "counter3 eval"
  shows "reset (dut (reset_phase eval w (int n) st)) = 1"
proof (induction n)
  case 0
  show ?case by (simp add: reset_phase_0)
next
  case (Suc n)
  then show ?case
    unfolding reset_phase_Suc by (simp add: clock_step_dut dut_clock_step_reset [OF assms])
qed

lemma reset_phase_io_out:
  assumes "counter3 eval"
  shows "io_out (dut (reset_phase eval w (int (Suc n)) st)) = 0"
  unfolding reset_phase_Suc clock_step_dut
  by (rule counter3_reset [OF assms]) (simp add: reset_phase_reset [OF assms])

lemma reset_phase_evaluated:
  "\<exists>tm d. dut (reset_phase eval w (int (Suc n)) st) = eval tm d"
  unfolding reset_phase_Suc clock_step_dut dut_clock_step_def by blast

lemma reset_update_same: "reset d = r \<Longrightarrow> d\<lparr>reset := r\<rparr> = d"
  by (cases d) simp

lemma mod8_succ: "(int m mod 8 + 1) mod 8 = int (Suc m) mod 8"
  by (simp add: mod_simps add.commute)

lemma test_phase_counts:
  assumes c: "counter3 eval" and ev: "dut st = eval tm0 d0" and z: "io_out (dut st) = 0"
  shows "uint (io_out (dut (test_phase eval w (int m) st))) = int m mod 8
         \<and> (\<exists>tm d. dut (test_phase eval w (int m) st) = (eval tm d)\<lparr>reset := 0\<rparr>)"
proof (induction m)
  case 0
  have "dut (test_phase eval w (int 0) st) = (eval tm0 d0)\<lparr>reset := 0\<rparr>"
    by (simp add: test_phase_0 ev)
  moreover have "uint (io_out (dut (test_phase eval w (int 0) st))) = int 0 mod 8"
    by (simp add: test_phase_0 z)
  ultimately show ?case by (intro conjI exI)
next
  case (Suc m)
  let ?S = "test_phase eval w (int m) st"
  let ?T = "test_phase eval w (int (Suc m)) st"
  let ?t = "ctx_time (contextp ?S)"
  from Suc.IH have v: "uint (io_out (dut ?S)) = int m mod 8"
    by (rule conjunct1)
  from Suc.IH have "\<exists>tm d. dut ?S = (eval tm d)\<lparr>reset := 0\<rparr>"
    by (rule conjunct2)
  then obtain tm d where S: "dut ?S = (eval tm d)\<lparr>reset := 0\<rparr>"
    by (elim exE)
  have d: "dut ?T = eval (?t + 2) (dut_clock_step eval ?t (dut ?S))"
    unfolding test_phase_Suc by (rule test_step_dut)
  have "io_out (dut ?T) = io_out (dut_clock_step eval ?t (dut ?S))"
    unfolding d dut_clock_step_def by (rule counter3_again [OF c])
  also have "uint \<dots> = (uint (io_out (eval tm d)) + 1) mod 8"
    unfolding S by (rule counter3_count [OF c])
  also have "io_out (eval tm d) = io_out (dut ?S)"
    unfolding S by simp
  finally have "uint (io_out (dut ?T)) = (int m mod 8 + 1) mod 8"
    unfolding v .
  then have val: "uint (io_out (dut ?T)) = int (Suc m) mod 8"
    unfolding mod8_succ .
  have "reset (dut ?S) = 0"
    unfolding S by simp
  then have "reset (dut ?T) = 0"
    unfolding d by (simp only: counter3_ports [OF c] dut_clock_step_reset [OF c])
  then have "dut ?T = (dut ?T)\<lparr>reset := 0\<rparr>"
    by (simp only: reset_update_same)
  then have "dut ?T = (eval (?t + 2) (dut_clock_step eval ?t (dut ?S)))\<lparr>reset := 0\<rparr>"
    unfolding d [symmetric] .
  with val show ?case by (intro conjI exI)
qed

lemma run_counts:
  assumes "counter3 eval" "0 \<le> i"
  shows "uint (io_out (dut (test_phase eval w i (reset_phase eval w 10 st)))) = i mod 8"
proof -
  obtain tm d where "dut (reset_phase eval w (int (Suc 9)) st) = eval tm d"
    using reset_phase_evaluated [of eval w 9 st] by blast
  moreover have "io_out (dut (reset_phase eval w (int (Suc 9)) st)) = 0"
    by (rule reset_phase_io_out [OF assms(1)])
  ultimately have "uint (io_out (dut (test_phase eval w (int (nat i))
      (reset_phase eval w (int (Suc 9)) st)))) = int (nat i) mod 8"
    using test_phase_counts [OF assms(1)] by blast
  with assms(2) show ?thesis by simp
qed

lemma count16_contract_checks:
  assumes "counter3 eval"
  shows "checks (count16 eval w d0) = map (\<lambda>i. (i mod 8, i mod 8)) [1..16]"
  unfolding count16_checks
  by (rule map_cong) (simp_all add: run_counts [OF assms] c_rem_nonneg)

section \<open>The functional phase passes\<close>

lemma count16_contract_passes:
  assumes "counter3 eval"
  shows "\<not> has_failure (count16 eval w d0)"
  unfolding count16_has_failure count16_contract_checks [OF assms] by auto

text \<open>
  C1. On a device that keeps the counter contract (a 3-bit wraparound counter that resets
  to 0), the output after the reset phase and \<open>i\<close> functional steps, \<open>1 \<le> i \<le> 16\<close>, is
  \<open>i mod 8\<close>, which is the value \<open>i % (1 << 3)\<close> it is compared with; the run with bound 16
  passes through that state, so each of its sixteen comparisons holds and the test case
  does not fail.
\<close>

theorem count16_expectations_hold:
  assumes "counter3 eval" and "1 \<le> i" and "i \<le> 16"
  shows "uint (io_out (dut (test_phase eval WAVEON i
            (reset_phase eval WAVEON 10 (new_test WAVEON d0))))) = i mod 8
   \<and> c_rem i (push_bit 3 1) = i mod 8
   \<and> test_phase eval WAVEON 16 st =
       for_le (i + 1) 16 (test_step eval WAVEON) (test_phase eval WAVEON i st)
   \<and> checks (count16 eval WAVEON d0) = map (\<lambda>k. (k mod 8, k mod 8)) [1..16]
   \<and> \<not> has_failure (count16 eval WAVEON d0)"
proof -
  have "uint (io_out (dut (test_phase eval WAVEON i
            (reset_phase eval WAVEON 10 (new_test WAVEON d0))))) = i mod 8"
    using assms(1,2) by (intro run_counts) simp_all
  moreover have "c_rem i (push_bit 3 1) = i mod 8"
    using assms(2) by (simp add: c_rem_nonneg)
  moreover have "test_phase eval WAVEON 16 st =
       for_le (i + 1) 16 (test_step eval WAVEON) (test_phase eval WAVEON i st)"
    unfolding test_phase_def using assms(2,3) by (intro for_le_split) simp_all
  ultimately show ?thesis
    using count16_contract_checks [OF assms(1)] count16_contract_passes [OF assms(1)]
    by simp
qed

theorem count16_expectations_witness:
  "counter3 VCounter_eval \<and> (1::int) \<le> 9 \<and> (9::int) \<le> 16
   \<and> uint (io_out (dut (test_phase VCounter_eval False 9
          (reset_phase VCounter_eval False 10
            (new_test False \<lparr>clock = 0, reset = 0, io_out = 5,
                              internals = \<lparr>cnt = 3, clock_last = 1\<rparr>\<rparr>))))) = 1
   \<and> checks (count16 VCounter_eval False
         \<lparr>clock = 0, reset = 0, io_out = 5, internals = \<lparr>cnt = 3, clock_last = 1\<rparr>\<rparr>) =
       [(1, 1), (2, 2), (3, 3), (4, 4), (5, 5), (6, 6), (7, 7), (0, 0),
        (1, 1), (2, 2), (3, 3), (4, 4), (5, 5), (6, 6), (7, 7), (0, 0)]
   \<and> \<not> has_failure (count16 VCounter_eval False
         \<lparr>clock = 0, reset = 0, io_out = 5, internals = \<lparr>cnt = 3, clock_last = 1\<rparr>\<rparr>)"
  using count16_expectations_hold [OF VCounter_eval_counter3, of 9 False
      "\<lparr>clock = 0, reset = 0, io_out = 5, internals = \<lparr>cnt = 3, clock_last = 1\<rparr>\<rparr>"]
    VCounter_eval_counter3
  by (simp add: upto_1_16)

section \<open>Determinism\<close>

text \<open>
  C7. Two runs of the test case on new contexts and new devices compare the same
  sequence of \<open>io_out\<close> values: trivially when the two devices start in the same state
  (\<open>eval\<close> is a function of the time and the device), and for a device that keeps the
  counter contract also when the constructor leaves the two devices in different states,
  since the reset phase erases the difference. The values compared are the outputs after
  the steps 1 to 16.
\<close>

theorem count16_deterministic:
  assumes "d1 = d2 \<or> counter3 eval"
  shows "checks (count16 eval WAVEON d1) = checks (count16 eval WAVEON d2)
   \<and> map fst (checks (count16 eval WAVEON d1)) =
       map (\<lambda>i. uint (io_out (dut (test_phase eval WAVEON i
                   (reset_phase eval WAVEON 10 (new_test WAVEON d1)))))) [1..16]
   \<and> map fst (checks (count16 eval WAVEON d2)) =
       map (\<lambda>i. uint (io_out (dut (test_phase eval WAVEON i
                   (reset_phase eval WAVEON 10 (new_test WAVEON d2)))))) [1..16]"
proof -
  from assms have a: "checks (count16 eval WAVEON d1) = checks (count16 eval WAVEON d2)"
  proof
    assume "d1 = d2"
    then show ?thesis by simp
  next
    assume "counter3 eval"
    then show ?thesis by (simp only: count16_contract_checks)
  qed
  have b: "map fst (checks (count16 eval WAVEON d)) =
       map (\<lambda>i. uint (io_out (dut (test_phase eval WAVEON i
                   (reset_phase eval WAVEON 10 (new_test WAVEON d)))))) [1..16]" for d
    unfolding count16_checks by (simp add: comp_def)
  from a b [of d1] b [of d2] show ?thesis by (intro conjI)
qed

theorem count16_deterministic_witness:
  "counter3 VCounter_eval
   \<and> \<lparr>clock = 0, reset = 0, io_out = 5, internals = \<lparr>cnt = 3, clock_last = 1\<rparr>\<rparr>
       \<noteq> \<lparr>clock = 1, reset = 1, io_out = 0, internals = \<lparr>cnt = 6, clock_last = 0\<rparr>\<rparr>
   \<and> checks (count16 VCounter_eval True
         \<lparr>clock = 0, reset = 0, io_out = 5, internals = \<lparr>cnt = 3, clock_last = 1\<rparr>\<rparr>)
     = checks (count16 VCounter_eval True
         \<lparr>clock = 1, reset = 1, io_out = 0, internals = \<lparr>cnt = 6, clock_last = 0\<rparr>\<rparr>)"
  using count16_deterministic [of
      "\<lparr>clock = 0, reset = 0, io_out = 5, internals = \<lparr>cnt = 3, clock_last = 1\<rparr>\<rparr>"
      "\<lparr>clock = 1, reset = 1, io_out = 0, internals = \<lparr>cnt = 6, clock_last = 0\<rparr>\<rparr>"
      VCounter_eval True]
    VCounter_eval_counter3
  by simp

section \<open>The reset phase on the modelled counter\<close>

lemma reset_phase_funpow:
  "reset_phase eval w (int n) st = (clock_step eval w ^^ n) (st\<lparr>dut := (dut st)\<lparr>reset := 1\<rparr>\<rparr>)"
  unfolding reset_phase_def by (rule for_lt_const_funpow)

lemma clock_steps_reset_held:
  assumes "counter3 eval"
  shows "reset (dut ((clock_step eval w ^^ k) (st\<lparr>dut := (dut st)\<lparr>reset := 1\<rparr>\<rparr>))) = 1"
  unfolding reset_phase_funpow [symmetric] by (rule reset_phase_reset [OF assms])

lemma VCounter_after_reset:
  "dut (reset_phase VCounter_eval w (int (Suc n)) st) =
     \<lparr>clock = 1, reset = 1, io_out = 0, internals = \<lparr>cnt = 0, clock_last = 1\<rparr>\<rparr>"
proof -
  let ?d = "dut (reset_phase VCounter_eval w (int n) st)"
  have r: "reset ?d = 1"
    by (rule reset_phase_reset [OF VCounter_eval_counter3])
  have "dut (reset_phase VCounter_eval w (int (Suc n)) st) =
      ?d\<lparr>clock := 1, io_out := 0, internals := \<lparr>cnt = 0, clock_last = 1\<rparr>\<rparr>"
    unfolding reset_phase_Suc clock_step_dut VCounter_clock_step by (simp add: r)
  also have "\<dots> = \<lparr>clock = 1, reset = 1, io_out = 0, internals = \<lparr>cnt = 0, clock_last = 1\<rparr>\<rparr>"
    using r by (cases ?d) simp
  finally show ?thesis .
qed

lemma VCounter_after_reset_int:
  assumes "1 \<le> n"
  shows "dut (reset_phase VCounter_eval w n st) =
     \<lparr>clock = 1, reset = 1, io_out = 0, internals = \<lparr>cnt = 0, clock_last = 1\<rparr>\<rparr>"
proof -
  from assms have "n = int (Suc (nat (n - 1)))" by simp
  then obtain k where "n = int (Suc k)" ..
  then show ?thesis by (simp only: VCounter_after_reset)
qed

text \<open>
  C3. The reset phase sets \<open>reset\<close> and then performs exactly ten clock steps, during
  which \<open>reset\<close> stays 1. From any state of the test and of the device, the counter
  register and \<open>io_out\<close> are 0 afterwards, also once \<open>reset\<close> has been de-asserted at the
  start of the functional phase.
\<close>

theorem reset_phase_postcondition:
  "reset_phase VCounter_eval WAVEON 10 st =
     (clock_step VCounter_eval WAVEON ^^ 10) (st\<lparr>dut := (dut st)\<lparr>reset := 1\<rparr>\<rparr>)
   \<and> map (\<lambda>k. reset (dut ((clock_step VCounter_eval WAVEON ^^ k)
                 (st\<lparr>dut := (dut st)\<lparr>reset := 1\<rparr>\<rparr>)))) [0..<11] = replicate 11 1
   \<and> cnt (internals (dut (reset_phase VCounter_eval WAVEON 10 st))) = 0
   \<and> io_out (dut (reset_phase VCounter_eval WAVEON 10 st)) = 0
   \<and> cnt (internals (dut (test_phase VCounter_eval WAVEON 0
              (reset_phase VCounter_eval WAVEON 10 st)))) = 0
   \<and> io_out (dut (test_phase VCounter_eval WAVEON 0
              (reset_phase VCounter_eval WAVEON 10 st))) = 0"
proof -
  have "reset_phase VCounter_eval WAVEON (int 10) st =
     (clock_step VCounter_eval WAVEON ^^ 10) (st\<lparr>dut := (dut st)\<lparr>reset := 1\<rparr>\<rparr>)"
    by (rule reset_phase_funpow)
  then have a: "reset_phase VCounter_eval WAVEON 10 st =
     (clock_step VCounter_eval WAVEON ^^ 10) (st\<lparr>dut := (dut st)\<lparr>reset := 1\<rparr>\<rparr>)"
    by simp
  have b: "map (\<lambda>k. reset (dut ((clock_step VCounter_eval WAVEON ^^ k)
                 (st\<lparr>dut := (dut st)\<lparr>reset := 1\<rparr>\<rparr>)))) [0..<11] = replicate 11 1"
    unfolding clock_steps_reset_held [OF VCounter_eval_counter3]
    by (rule map_replicate_trivial)
  have c: "dut (reset_phase VCounter_eval WAVEON 10 st) =
     \<lparr>clock = 1, reset = 1, io_out = 0, internals = \<lparr>cnt = 0, clock_last = 1\<rparr>\<rparr>"
    by (rule VCounter_after_reset_int) simp
  have c1: "cnt (internals (dut (reset_phase VCounter_eval WAVEON 10 st))) = 0"
    and c2: "io_out (dut (reset_phase VCounter_eval WAVEON 10 st)) = 0"
    and c3: "cnt (internals (dut (test_phase VCounter_eval WAVEON 0
              (reset_phase VCounter_eval WAVEON 10 st)))) = 0"
    and c4: "io_out (dut (test_phase VCounter_eval WAVEON 0
              (reset_phase VCounter_eval WAVEON 10 st))) = 0"
    by (simp_all add: c test_phase_0)
  from a b c1 c2 c3 c4 show ?thesis
    by (intro conjI)
qed

section \<open>The width of the output\<close>

lemma uint_ucast_3_le: "uint (ucast (c :: 3 word) :: 8 word) \<le> 7"
  using uint_bounded [of c] by (simp add: uint_ucast_3_8)

lemma VCounter_eval_le: "uint (io_out (VCounter_eval tm d)) \<le> 7"
  by (simp only: VCounter_eval_ports uint_ucast_3_le)

lemma VCounter_test_phase_le:
  "uint (io_out (dut (test_phase VCounter_eval w m (reset_phase VCounter_eval w 10 st)))) \<le> 7"
proof (cases "m \<le> 0")
  case True
  have "dut (reset_phase VCounter_eval w 10 st) =
     \<lparr>clock = 1, reset = 1, io_out = 0, internals = \<lparr>cnt = 0, clock_last = 1\<rparr>\<rparr>"
    by (rule VCounter_after_reset_int) simp
  with True show ?thesis by (simp add: test_phase_0)
next
  case False
  then have "m = int (Suc (nat (m - 1)))" by simp
  then obtain k where "m = int (Suc k)" ..
  then show ?thesis
    by (simp only: test_phase_Suc test_step_dut VCounter_eval_le)
qed

lemma VCounter_clock_steps_le:
  "uint (io_out (dut ((clock_step VCounter_eval w ^^ n)
      (test_phase VCounter_eval w 0 (reset_phase VCounter_eval w 10 st))))) \<le> 7"
proof (cases n)
  case 0
  with VCounter_test_phase_le [where w = w and m = 0 and st = st] show ?thesis by simp
next
  case (Suc k)
  then show ?thesis
    by (simp add: clock_step_dut dut_clock_step_def VCounter_eval_le del: VCounter_eval_ports)
qed

text \<open>
  C4. After the reset phase, the output of the modelled counter is at most 7 after any
  number of steps of the functional phase (any loop bound \<open>m\<close>, beyond 16 too), and after
  any number \<open>n\<close> of clock steps with reset de-asserted.
\<close>

theorem io_out_fits_three_bits:
  "uint (io_out (dut (test_phase VCounter_eval WAVEON m
       (reset_phase VCounter_eval WAVEON 10 st)))) \<le> 7
   \<and> uint (io_out (dut ((clock_step VCounter_eval WAVEON ^^ n)
       (test_phase VCounter_eval WAVEON 0 (reset_phase VCounter_eval WAVEON 10 st))))) \<le> 7"
  using VCounter_test_phase_le [where w = WAVEON and m = m and st = st]
    VCounter_clock_steps_le [where w = WAVEON and n = n and st = st]
  by (intro conjI)

section \<open>Resetting again\<close>

text \<open>
  C5. From any state, a reset phase of at least ten clock steps leaves the modelled
  counter in one and the same device state, with \<open>io_out = 0\<close>; so a second reset phase
  after the first changes nothing in the device.
\<close>

theorem reset_phase_idempotent:
  assumes "10 \<le> n"
  shows "io_out (dut (reset_phase VCounter_eval WAVEON n st)) = 0
   \<and> dut (reset_phase VCounter_eval WAVEON n st) =
       \<lparr>clock = 1, reset = 1, io_out = 0, internals = \<lparr>cnt = 0, clock_last = 1\<rparr>\<rparr>
   \<and> dut (reset_phase VCounter_eval WAVEON 10 (reset_phase VCounter_eval WAVEON 10 st)) =
       dut (reset_phase VCounter_eval WAVEON 10 st)"
proof -
  from assms have "1 \<le> n" by simp
  then have "dut (reset_phase VCounter_eval WAVEON n st) =
       \<lparr>clock = 1, reset = 1, io_out = 0, internals = \<lparr>cnt = 0, clock_last = 1\<rparr>\<rparr>"
    by (rule VCounter_after_reset_int)
  moreover have "dut (reset_phase VCounter_eval WAVEON 10 s) =
       \<lparr>clock = 1, reset = 1, io_out = 0, internals = \<lparr>cnt = 0, clock_last = 1\<rparr>\<rparr>" for s
    by (rule VCounter_after_reset_int) simp
  ultimately show ?thesis by simp
qed

theorem reset_phase_idempotent_witness:
  "(10::int) \<le> 12
   \<and> io_out (dut (reset_phase VCounter_eval False 12
        (new_test False \<lparr>clock = 0, reset = 0, io_out = 5,
                          internals = \<lparr>cnt = 3, clock_last = 1\<rparr>\<rparr>))) = 0
   \<and> dut (reset_phase VCounter_eval False 10 (reset_phase VCounter_eval False 10
        (new_test False \<lparr>clock = 0, reset = 0, io_out = 5,
                          internals = \<lparr>cnt = 3, clock_last = 1\<rparr>\<rparr>))) =
     dut (reset_phase VCounter_eval False 10
        (new_test False \<lparr>clock = 0, reset = 0, io_out = 5,
                          internals = \<lparr>cnt = 3, clock_last = 1\<rparr>\<rparr>))"
  using reset_phase_idempotent [of 12 False
      "new_test False \<lparr>clock = 0, reset = 0, io_out = 5,
                        internals = \<lparr>cnt = 3, clock_last = 1\<rparr>\<rparr>"]
  by simp

section \<open>The extra evaluation\<close>

lemma VCounter_eval_after_clock_step:
  "VCounter_eval tm (dut (clock_step VCounter_eval w st)) = dut (clock_step VCounter_eval w st)"
  unfolding clock_step_dut dut_clock_step_def by (rule VCounter_eval_again)

lemma dut_update_same: "st\<lparr>dut := dut st\<rparr> = st"
  by simp

lemma VCounter_test_step_no_eval:
  "test_step_no_eval VCounter_eval w = test_step VCounter_eval w"
  by (intro ext)
    (simp only: test_step_no_eval_def test_step_def Let_def VCounter_eval_after_clock_step
      dut_update_same)

text \<open>
  C10. On the modelled counter, the evaluation that follows a clock step, with the inputs
  as the clock step left them, changes nothing in the device, so \<open>io_out\<close> is the value
  the clock step produced; the functional phase without the extra evaluation ends in the
  same state, with the same comparisons and the same verdict.
\<close>

theorem extra_eval_is_redundant:
  "VCounter_eval tm (dut (clock_step VCounter_eval WAVEON st)) =
     dut (clock_step VCounter_eval WAVEON st)
   \<and> io_out (VCounter_eval tm (dut (clock_step VCounter_eval WAVEON st))) =
       io_out (dut (clock_step VCounter_eval WAVEON st))
   \<and> test_phase_no_eval VCounter_eval WAVEON m st = test_phase VCounter_eval WAVEON m st
   \<and> checks (test_phase_no_eval VCounter_eval WAVEON m st) =
       checks (test_phase VCounter_eval WAVEON m st)
   \<and> has_failure (test_phase_no_eval VCounter_eval WAVEON m st) =
       has_failure (test_phase VCounter_eval WAVEON m st)"
proof -
  have "test_phase_no_eval VCounter_eval WAVEON m st = test_phase VCounter_eval WAVEON m st"
    by (simp only: test_phase_no_eval_def test_phase_def VCounter_test_step_no_eval)
  then show ?thesis
    by (simp only: VCounter_eval_after_clock_step simp_thms)
qed

end
